theory Spec2Isabelle
  imports Main "HOL-Library.AList"
begin

unbundle bit_operations_syntax

section \<open>Values, objects and the store\<close>

text \<open>
  The class \<^verbatim>\<open>Instance\<close> of \<^verbatim>\<open>easyjailbreak/datasets/instance.py\<close> keeps every field in
  one dictionary \<^verbatim>\<open>_data\<close>. Lists, dictionaries and instances are mutable and shared by
  reference, so they live in a store and values point to them by address. Strings are
  the byte sequences of their UTF-8 encoding; dictionary keys are strings; a dictionary
  is an association list in insertion order.
\<close>

type_synonym addr = nat

datatype val = VNone | VBool bool | VInt int | VStr string | VRef addr

datatype obj =
    OList "val list"
  | ODict "(string \<times> val) list"
  | OInst "val option"  \<comment> \<open>the instance's own \<^verbatim>\<open>__dict__\<close>: its \<^verbatim>\<open>_data\<close> entry, if set\<close>

type_synonym heap = "obj list"

datatype error = AttributeError | KeyError | TypeError | RecursionError | Unmodelled

definition lookup :: "heap \<Rightarrow> addr \<Rightarrow> obj option" where
  "lookup h a = (if a < length h then Some (h ! a) else None)"

definition alloc :: "heap \<Rightarrow> obj \<Rightarrow> heap \<times> addr" where
  "alloc h ob = (h @ [ob], length h)"

definition bindE :: "error + 'a \<Rightarrow> ('a \<Rightarrow> error + 'b) \<Rightarrow> error + 'b" where
  "bindE m f = (case m of Inl e \<Rightarrow> Inl e | Inr x \<Rightarrow> f x)"

section \<open>The digest of \<^verbatim>\<open>hashlib.md5\<close>\<close>

text \<open>MD5 as in RFC 1321. A 32-bit word is a natural number below \<open>2 ^ 32\<close>, and the
  wrap-around of each addition, the complement and the rotation are written out.\<close>

definition md5_K :: "nat list" where
  "md5_K =
    [0xd76aa478, 0xe8c7b756, 0x242070db, 0xc1bdceee,
     0xf57c0faf, 0x4787c62a, 0xa8304613, 0xfd469501,
     0x698098d8, 0x8b44f7af, 0xffff5bb1, 0x895cd7be,
     0x6b901122, 0xfd987193, 0xa679438e, 0x49b40821,
     0xf61e2562, 0xc040b340, 0x265e5a51, 0xe9b6c7aa,
     0xd62f105d, 0x02441453, 0xd8a1e681, 0xe7d3fbc8,
     0x21e1cde6, 0xc33707d6, 0xf4d50d87, 0x455a14ed,
     0xa9e3e905, 0xfcefa3f8, 0x676f02d9, 0x8d2a4c8a,
     0xfffa3942, 0x8771f681, 0x6d9d6122, 0xfde5380c,
     0xa4beea44, 0x4bdecfa9, 0xf6bb4b60, 0xbebfbc70,
     0x289b7ec6, 0xeaa127fa, 0xd4ef3085, 0x04881d05,
     0xd9d4d039, 0xe6db99e5, 0x1fa27cf8, 0xc4ac5665,
     0xf4292244, 0x432aff97, 0xab9423a7, 0xfc93a039,
     0x655b59c3, 0x8f0ccc92, 0xffeff47d, 0x85845dd1,
     0x6fa87e4f, 0xfe2ce6e0, 0xa3014314, 0x4e0811a1,
     0xf7537e82, 0xbd3af235, 0x2ad7d2bb, 0xeb86d391]"

definition md5_s :: "nat list" where
  "md5_s = [7, 12, 17, 22, 7, 12, 17, 22, 7, 12, 17, 22, 7, 12, 17, 22,
            5, 9, 14, 20, 5, 9, 14, 20, 5, 9, 14, 20, 5, 9, 14, 20,
            4, 11, 16, 23, 4, 11, 16, 23, 4, 11, 16, 23, 4, 11, 16, 23,
            6, 10, 15, 21, 6, 10, 15, 21, 6, 10, 15, 21, 6, 10, 15, 21]"

definition md5_pad :: "nat list \<Rightarrow> nat list" where
  "md5_pad bs = bs @ [128] @ replicate ((119 - length bs mod 64) mod 64) 0
      @ map (\<lambda>i. (8 * length bs) div 2 ^ (8 * i) mod 256) [0..<8]"

fun le_words :: "nat list \<Rightarrow> nat list" where
  "le_words (b0 # b1 # b2 # b3 # bs) =
     (b0 + 256 * b1 + 65536 * b2 + 16777216 * b3) # le_words bs"
| "le_words _ = []"

definition u32 :: "nat \<Rightarrow> nat" where "u32 x = x mod 4294967296"
definition not32 :: "nat \<Rightarrow> nat" where "not32 x = 4294967295 - x"
definition rotl32 :: "nat \<Rightarrow> nat \<Rightarrow> nat" where
  "rotl32 s x = u32 (x * 2 ^ s) + x div 2 ^ (32 - s)"

definition md5_F :: "nat \<Rightarrow> nat \<Rightarrow> nat \<Rightarrow> nat \<Rightarrow> nat" where
  "md5_F i B C D =
       (if i < 16 then (B AND C) OR (not32 B AND D)
        else if i < 32 then (D AND B) OR (not32 D AND C)
        else if i < 48 then B XOR C XOR D
        else C XOR (B OR not32 D))"

definition md5_g :: "nat \<Rightarrow> nat" where
  "md5_g i = (if i < 16 then i else if i < 32 then (5 * i + 1) mod 16
        else if i < 48 then (3 * i + 5) mod 16 else (7 * i) mod 16)"

fun md5_step :: "nat list \<Rightarrow> nat \<times> nat \<times> nat \<times> nat \<Rightarrow> nat \<Rightarrow> nat \<times> nat \<times> nat \<times> nat" where
  "md5_step M (A, B, C, D) i =
     (D, u32 (B + rotl32 (md5_s ! i) (u32 (md5_F i B C D + A + md5_K ! i + M ! md5_g i))), B, C)"


definition md5_block :: "nat \<times> nat \<times> nat \<times> nat \<Rightarrow> nat list \<Rightarrow> nat \<times> nat \<times> nat \<times> nat" where
  "md5_block st M = (case st of (a0, b0, c0, d0) \<Rightarrow>
     case foldl (md5_step M) st [0..<64] of (A, B, C, D) \<Rightarrow>
       (u32 (a0 + A), u32 (b0 + B), u32 (c0 + C), u32 (d0 + D)))"

fun md5_blocks :: "nat \<Rightarrow> nat \<times> nat \<times> nat \<times> nat \<Rightarrow> nat list \<Rightarrow> nat \<times> nat \<times> nat \<times> nat" where
  "md5_blocks 0 st ws = st"
| "md5_blocks (Suc n) st ws = md5_blocks n (md5_block st (take 16 ws)) (drop 16 ws)"

definition hexbyte :: "nat \<Rightarrow> string" where
  "hexbyte b = [''0123456789abcdef'' ! (b div 16 mod 16), ''0123456789abcdef'' ! (b mod 16)]"

definition le_hex :: "nat \<Rightarrow> string" where
  "le_hex w = concat (map (\<lambda>i. hexbyte (w div 2 ^ (8 * i) mod 256)) [0..<4])"

definition md5_hexdigest :: "string \<Rightarrow> string" where
  "md5_hexdigest s =
     (let p = md5_pad (map of_char s) in
      case md5_blocks (length p div 64) (0x67452301, 0xefcdab89, 0x98badcfe, 0x10325476) (le_words p)
      of (A, B, C, D) \<Rightarrow> le_hex A @ le_hex B @ le_hex C @ le_hex D)"

section \<open>Python's built-in operations on values\<close>

text \<open>Truth value of an operand of \<^verbatim>\<open>or\<close>. An instance defines neither \<^verbatim>\<open>__bool__\<close> nor
  \<^verbatim>\<open>__len__\<close>, so it is true. A reference to nothing does not occur in Python.\<close>

definition truthy :: "heap \<Rightarrow> val \<Rightarrow> error + bool" where
  "truthy h v = (case v of
       VNone \<Rightarrow> Inr False
     | VBool b \<Rightarrow> Inr b
     | VInt i \<Rightarrow> Inr (i \<noteq> 0)
     | VStr s \<Rightarrow> Inr (s \<noteq> [])
     | VRef r \<Rightarrow> (case lookup h r of
           None \<Rightarrow> Inl Unmodelled
         | Some (OList xs) \<Rightarrow> Inr (xs \<noteq> [])
         | Some (ODict m) \<Rightarrow> Inr (m \<noteq> [])
         | Some (OInst s) \<Rightarrow> Inr True))"

text \<open>\<^verbatim>\<open>x or default\<close>, where the default is a fresh container, built only when needed.\<close>

definition or_else :: "heap \<Rightarrow> val \<Rightarrow> obj \<Rightarrow> error + heap \<times> val" where
  "or_else h v ob = bindE (truthy h v) (\<lambda>t.
     if t then Inr (h, v) else (case alloc h ob of (h', r) \<Rightarrow> Inr (h', VRef r)))"

function dec_nat :: "nat \<Rightarrow> string" where
  "dec_nat n = (if n < 10 then [''0123456789'' ! n]
                else dec_nat (n div 10) @ [''0123456789'' ! (n mod 10)])"
  by pat_completeness auto
termination
  by (relation "measure id") auto

text \<open>What an f-string field prints. The \<^verbatim>\<open>repr\<close> of containers and instances is not modelled.\<close>

definition py_format :: "val \<Rightarrow> error + string" where
  "py_format v = (case v of
       VNone \<Rightarrow> Inr ''None''
     | VBool b \<Rightarrow> Inr (if b then ''True'' else ''False'')
     | VInt i \<Rightarrow> Inr (if i < 0 then CHR ''-'' # dec_nat (nat (- i)) else dec_nat (nat i))
     | VStr s \<Rightarrow> Inr s
     | VRef r \<Rightarrow> Inl Unmodelled)"

text \<open>
  A string is held as the bytes of its UTF-8 encoding, and Python counts and iterates
  code points: a byte \<open>10xxxxxx\<close> continues the code point of the byte before it.
\<close>

definition is_cont :: "char \<Rightarrow> bool" where
  "is_cont c \<longleftrightarrow> 128 \<le> (of_char c :: nat) \<and> (of_char c :: nat) < 192"

fun code_points :: "string \<Rightarrow> string list" where
  "code_points [] = []"
| "code_points (c # cs) =
     (case code_points cs of
        [] \<Rightarrow> [[c]]
      | g # gs \<Rightarrow> (case g of
            [] \<Rightarrow> [c] # gs
          | b # bs \<Rightarrow> if is_cont b then (c # g) # gs else [c] # g # gs))"

text \<open>\<^verbatim>\<open>len(x)\<close>: an instance has no \<^verbatim>\<open>__len__\<close>.\<close>

definition py_len :: "heap \<Rightarrow> val \<Rightarrow> error + int" where
  "py_len h v = (case v of
       VStr s \<Rightarrow> Inr (int (length (code_points s)))
     | VRef r \<Rightarrow> (case lookup h r of
           None \<Rightarrow> Inl Unmodelled
         | Some (OList xs) \<Rightarrow> Inr (int (length xs))
         | Some (ODict m) \<Rightarrow> Inr (int (length m))
         | Some (OInst s) \<Rightarrow> Inl TypeError)
     | _ \<Rightarrow> Inl TypeError)"

text \<open>The elements an iteration over a value visits; iterating an instance goes through
  its \<^verbatim>\<open>__iter__\<close> and is not modelled here.\<close>

definition py_iter :: "heap \<Rightarrow> val \<Rightarrow> error + val list" where
  "py_iter h v = (case v of
       VStr s \<Rightarrow> Inr (map VStr (code_points s))
     | VRef r \<Rightarrow> (case lookup h r of
           None \<Rightarrow> Inl Unmodelled
         | Some (OList xs) \<Rightarrow> Inr xs
         | Some (ODict m) \<Rightarrow> Inr (map (\<lambda>kv. VStr (fst kv)) m)
         | Some (OInst s) \<Rightarrow> Inl Unmodelled)
     | _ \<Rightarrow> Inl TypeError)"

fun sum_vals :: "int \<Rightarrow> val list \<Rightarrow> error + int" where
  "sum_vals acc [] = Inr acc"
| "sum_vals acc (VInt i # xs) = sum_vals (acc + i) xs"
| "sum_vals acc (VBool b # xs) = sum_vals (acc + (if b then 1 else 0)) xs"
| "sum_vals acc (_ # xs) = Inl TypeError"

definition py_sum :: "heap \<Rightarrow> val \<Rightarrow> error + int" where
  "py_sum h v = bindE (py_iter h v) (sum_vals 0)"

text \<open>\<^verbatim>\<open>x[name]\<close> for whatever \<^verbatim>\<open>self._data\<close> holds. Only a dictionary accepts a string key;
  an instance would answer through its own \<^verbatim>\<open>__getitem__\<close>, which is not followed.\<close>

definition subscript :: "heap \<Rightarrow> val \<Rightarrow> string \<Rightarrow> error + val" where
  "subscript h s name = (case s of
       VRef d \<Rightarrow> (case lookup h d of
           None \<Rightarrow> Inl Unmodelled
         | Some (ODict m) \<Rightarrow> (case map_of m name of None \<Rightarrow> Inl KeyError | Some v \<Rightarrow> Inr v)
         | Some (OList xs) \<Rightarrow> Inl TypeError
         | Some (OInst s') \<Rightarrow> Inl Unmodelled)
     | _ \<Rightarrow> Inl TypeError)"

text \<open>\<^verbatim>\<open>x[name] = value\<close>, likewise.\<close>

definition store_item :: "heap \<Rightarrow> val \<Rightarrow> string \<Rightarrow> val \<Rightarrow> error + heap" where
  "store_item h s name v = (case s of
       VRef d \<Rightarrow> (case lookup h d of
           None \<Rightarrow> Inl Unmodelled
         | Some (ODict m) \<Rightarrow> Inr (h[d := ODict (AList.update name v m)])
         | Some (OList xs) \<Rightarrow> Inl TypeError
         | Some (OInst s') \<Rightarrow> Inl Unmodelled)
     | _ \<Rightarrow> Inl TypeError)"

text \<open>\<^verbatim>\<open>del x[name]\<close>, likewise.\<close>

definition del_item :: "heap \<Rightarrow> val \<Rightarrow> string \<Rightarrow> error + heap" where
  "del_item h s name = (case s of
       VRef d \<Rightarrow> (case lookup h d of
           None \<Rightarrow> Inl Unmodelled
         | Some (ODict m) \<Rightarrow>
             (if name \<in> fst ` set m then Inr (h[d := ODict (AList.delete name m)])
              else Inl KeyError)
         | Some (OList xs) \<Rightarrow> Inl TypeError
         | Some (OInst s') \<Rightarrow> Inl Unmodelled)
     | _ \<Rightarrow> Inl TypeError)"

text \<open>The value of \<^verbatim>\<open>self._data\<close> by normal lookup in the instance's \<^verbatim>\<open>__dict__\<close>.\<close>

definition slot :: "heap \<Rightarrow> addr \<Rightarrow> error + val" where
  "slot h a = (case lookup h a of
       Some (OInst (Some s)) \<Rightarrow> Inr s
     | Some (OInst None) \<Rightarrow> Inl AttributeError
     | _ \<Rightarrow> Inl Unmodelled)"

section \<open>The class Instance\<close>

text \<open>\<^verbatim>\<open>__getattr__\<close> (lines 116-123): a missing key becomes an AttributeError, and so does
  an instance that has no \<^verbatim>\<open>_data\<close> yet.\<close>

definition getattr :: "heap \<Rightarrow> addr \<Rightarrow> string \<Rightarrow> error + val" where
  "getattr h a name = (case lookup h a of
       Some (OInst (Some s)) \<Rightarrow>
         (case subscript h s name of Inl KeyError \<Rightarrow> Inl AttributeError | r \<Rightarrow> r)
     | Some (OInst None) \<Rightarrow> Inl AttributeError
     | _ \<Rightarrow> Inl Unmodelled)"

text \<open>\<^verbatim>\<open>__setattr__\<close> (lines 125-129).\<close>

definition setattr :: "heap \<Rightarrow> addr \<Rightarrow> string \<Rightarrow> val \<Rightarrow> error + heap" where
  "setattr h a name v =
     (if name = ''_data'' then
        (case lookup h a of Some (OInst s) \<Rightarrow> Inr (h[a := OInst (Some v)]) | _ \<Rightarrow> Inl Unmodelled)
      else bindE (slot h a) (\<lambda>s. store_item h s name v))"

text \<open>\<^verbatim>\<open>__getitem__\<close> and \<^verbatim>\<open>__setitem__\<close> (lines 131-135).\<close>

definition getitem :: "heap \<Rightarrow> addr \<Rightarrow> string \<Rightarrow> error + val" where
  "getitem h a key = getattr h a key"

definition setitem :: "heap \<Rightarrow> addr \<Rightarrow> string \<Rightarrow> val \<Rightarrow> error + heap" where
  "setitem h a key v = setattr h a key v"

text \<open>\<^verbatim>\<open>_generate_id\<close> (lines 41-44).\<close>

definition generate_id :: "heap \<Rightarrow> addr \<Rightarrow> error + val" where
  "generate_id h a =
     bindE (getattr h a ''query'') (\<lambda>q. bindE (py_format q) (\<lambda>qs.
     bindE (getattr h a ''jailbreak_prompt'') (\<lambda>p. bindE (py_format p) (\<lambda>ps.
       Inr (VStr (md5_hexdigest (qs @ ''|'' @ ps)))))))"

text \<open>The keyword-only parameters of \<^verbatim>\<open>__init__\<close>; every other keyword lands in \<^verbatim>\<open>kwargs\<close>.\<close>

definition param_names :: "string list" where
  "param_names = [''query'', ''jailbreak_prompt'', ''reference_responses'', ''target_responses'',
     ''eval_results'', ''parents'', ''children'', ''attack_attrs'']"

definition arg :: "(string \<times> val) list \<Rightarrow> string \<Rightarrow> val" where
  "arg kw n = (case map_of kw n of None \<Rightarrow> VNone | Some v \<Rightarrow> v)"

definition kwargs_of :: "(string \<times> val) list \<Rightarrow> (string \<times> val) list" where
  "kwargs_of kw = filter (\<lambda>kv. fst kv \<notin> set param_names) kw"

text \<open>\<^verbatim>\<open>self.name = value or default\<close>.\<close>

definition set_or :: "addr \<Rightarrow> string \<Rightarrow> val \<Rightarrow> obj \<Rightarrow> heap \<Rightarrow> error + heap" where
  "set_or a name v ob h = bindE (or_else h v ob) (\<lambda>(h', v'). setattr h' a name v')"

fun update_items :: "(string \<times> val) list \<Rightarrow> (string \<times> val) list \<Rightarrow> (string \<times> val) list" where
  "update_items m [] = m"
| "update_items m ((k, v) # kvs) = update_items (AList.update k v m) kvs"

text \<open>\<^verbatim>\<open>self._data.update(...)\<close>: only a dictionary has the method.\<close>

definition data_update :: "heap \<Rightarrow> addr \<Rightarrow> (string \<times> val) list \<Rightarrow> error + heap" where
  "data_update h a kvs = bindE (slot h a) (\<lambda>s. case s of
       VRef d \<Rightarrow> (case lookup h d of
           None \<Rightarrow> Inl Unmodelled
         | Some (ODict m) \<Rightarrow> Inr (h[d := ODict (update_items m kvs)])
         | Some (OList xs) \<Rightarrow> Inl AttributeError
         | Some (OInst s') \<Rightarrow> Inl Unmodelled)
     | _ \<Rightarrow> Inl AttributeError)"

text \<open>\<^verbatim>\<open>__init__\<close> (lines 11-39), called with the keywords \<open>kw\<close>. The call itself rejects
  a keyword named \<^verbatim>\<open>self\<close>. The new object comes first, then its empty \<^verbatim>\<open>_data\<close>.\<close>

definition init :: "heap \<Rightarrow> (string \<times> val) list \<Rightarrow> error + heap \<times> addr" where
  "init h kw =
     (if ''self'' \<in> fst ` set kw then Inl TypeError
      else case alloc h (OInst None) of (h0, a) \<Rightarrow>
           case alloc h0 (ODict []) of (h1, d) \<Rightarrow>
        bindE (setattr h1 a ''_data'' (VRef d)) (\<lambda>h2.
        bindE (setattr h2 a ''query'' (arg kw ''query'')) (\<lambda>h3.
        bindE (setattr h3 a ''jailbreak_prompt'' (arg kw ''jailbreak_prompt'')) (\<lambda>h4.
        bindE (set_or a ''reference_responses'' (arg kw ''reference_responses'') (OList []) h4) (\<lambda>h5.
        bindE (set_or a ''target_responses'' (arg kw ''target_responses'') (OList []) h5) (\<lambda>h6.
        bindE (set_or a ''eval_results'' (arg kw ''eval_results'') (OList []) h6) (\<lambda>h7.
        bindE (set_or a ''parents'' (arg kw ''parents'') (OList []) h7) (\<lambda>h8.
        bindE (set_or a ''children'' (arg kw ''children'') (OList []) h8) (\<lambda>h9.
        bindE (setattr h9 a ''index'' VNone) (\<lambda>h10.
        bindE (set_or a ''attack_attrs'' (arg kw ''attack_attrs'')
                 (ODict [(''Mutation'', VNone), (''query_class'', VNone)]) h10) (\<lambda>h11.
        bindE (data_update h11 a (kwargs_of kw)) (\<lambda>h12.
        bindE (generate_id h12 a) (\<lambda>i.
        bindE (setattr h12 a ''id'' i) (\<lambda>h13.
          Inr (h13, a)))))))))))))))"

text \<open>The properties \<^verbatim>\<open>num_query\<close>, \<^verbatim>\<open>num_jailbreak\<close>, \<^verbatim>\<open>num_reject\<close> (lines 89-114).\<close>

definition num_query :: "heap \<Rightarrow> addr \<Rightarrow> error + int" where
  "num_query h a = bindE (getattr h a ''target_responses'') (py_len h)"

definition num_jailbreak :: "heap \<Rightarrow> addr \<Rightarrow> error + int" where
  "num_jailbreak h a = bindE (getattr h a ''eval_results'') (py_sum h)"

definition num_reject :: "heap \<Rightarrow> addr \<Rightarrow> error + int" where
  "num_reject h a =
     bindE (getattr h a ''eval_results'') (\<lambda>e1. bindE (py_len h e1) (\<lambda>n.
     bindE (getattr h a ''eval_results'') (\<lambda>e2. bindE (py_sum h e2) (\<lambda>s.
       Inr (n - s)))))"


text \<open>\<^verbatim>\<open>delete\<close> (lines 65-72): the keys go one by one, and the first missing key raises
  KeyError out of the loop. The store is returned in both cases, as the caller finds it.\<close>

fun delete :: "heap \<Rightarrow> addr \<Rightarrow> string list \<Rightarrow> heap \<times> error option" where
  "delete h a [] = (h, None)"
| "delete h a (key # keys) =
     (case bindE (slot h a) (\<lambda>s. del_item h s key) of
        Inl e \<Rightarrow> (h, Some e)
      | Inr h' \<Rightarrow> delete h' a keys)"

subsection \<open>Attribute access as the interpreter performs it\<close>

text \<open>
  \<^verbatim>\<open>r.name\<close> looks first at the class: a property is computed, the instance's own
  \<^verbatim>\<open>__dict__\<close> (which only ever holds \<^verbatim>\<open>_data\<close>) comes next, then the methods of the class
  and what every object inherits. Only when all of that fails is \<^verbatim>\<open>__getattr__\<close> called,
  also when a property getter itself raised AttributeError. The names below are those
  of the class body (lines 10-150) and of \<^verbatim>\<open>object\<close> in Python 3.11.
\<close>

definition property_names :: "string list" where
  "property_names = [''num_query'', ''num_jailbreak'', ''num_reject'']"

definition method_names :: "string list" where
  "method_names = [''__init__'', ''_generate_id'', ''copy'', ''delete'', ''to_dict'',
     ''__getattr__'', ''__setattr__'', ''__getitem__'', ''__setitem__'', ''__str__'',
     ''keys'', ''values'', ''items'', ''__iter__'']"

definition object_names :: "string list" where
  "object_names = [''__class__'', ''__delattr__'', ''__dict__'', ''__dir__'', ''__doc__'',
     ''__eq__'', ''__format__'', ''__ge__'', ''__getattribute__'', ''__getstate__'', ''__gt__'',
     ''__hash__'', ''__init_subclass__'', ''__le__'', ''__lt__'', ''__module__'', ''__ne__'',
     ''__new__'', ''__reduce__'', ''__reduce_ex__'', ''__repr__'', ''__sizeof__'',
     ''__subclasshook__'', ''__weakref__'']"

text \<open>What a read finds: a stored or computed value, or a member of the class (a bound
  method or another object of the class, which is not a field value).\<close>

datatype found = Field val | Member string

definition as_field :: "error + val \<Rightarrow> error + found" where
  "as_field r = (case r of Inl e \<Rightarrow> Inl e | Inr v \<Rightarrow> Inr (Field v))"

definition property_read :: "heap \<Rightarrow> addr \<Rightarrow> string \<Rightarrow> error + int \<Rightarrow> error + found" where
  "property_read h a name r = (case r of
       Inr i \<Rightarrow> Inr (Field (VInt i))
     | Inl AttributeError \<Rightarrow> as_field (getattr h a name)
     | Inl e \<Rightarrow> Inl e)"

definition attr_read :: "heap \<Rightarrow> addr \<Rightarrow> string \<Rightarrow> error + found" where
  "attr_read h a name = (case lookup h a of
       Some (OInst s) \<Rightarrow>
         (if name = ''num_query'' then property_read h a name (num_query h a)
          else if name = ''num_jailbreak'' then property_read h a name (num_jailbreak h a)
          else if name = ''num_reject'' then property_read h a name (num_reject h a)
          else if name = ''_data'' then
            (case s of Some v \<Rightarrow> Inr (Field v) | None \<Rightarrow> as_field (getattr h a name))
          else if name \<in> set method_names \<or> name \<in> set object_names then Inr (Member name)
          else as_field (getattr h a name))
     | _ \<Rightarrow> Inl Unmodelled)"

text \<open>A sequence of assignments to one record, each by attribute (\<^verbatim>\<open>r.n = v\<close>) or by key
  (\<^verbatim>\<open>r[n] = v\<close>).\<close>

datatype style = ByAttr | ByKey

fun assign_all :: "heap \<Rightarrow> addr \<Rightarrow> (style \<times> string \<times> val) list \<Rightarrow> error + heap" where
  "assign_all h a [] = Inr h"
| "assign_all h a ((ByAttr, n, v) # ws) = bindE (setattr h a n v) (\<lambda>h'. assign_all h' a ws)"
| "assign_all h a ((ByKey, n, v) # ws) = bindE (setitem h a n v) (\<lambda>h'. assign_all h' a ws)"

subsection \<open>\<^verbatim>\<open>copy.deepcopy\<close>\<close>



subsection \<open>\<^verbatim>\<open>copy\<close> and \<^verbatim>\<open>to_dict\<close>\<close>



text \<open>\<^verbatim>\<open>x.items()\<close> for whatever \<^verbatim>\<open>_data\<close> holds.\<close>

definition dict_items :: "heap \<Rightarrow> val \<Rightarrow> error + (string \<times> val) list" where
  "dict_items h s = (case s of
       VRef d \<Rightarrow> (case lookup h d of
           None \<Rightarrow> Inl Unmodelled
         | Some (ODict m) \<Rightarrow> Inr m
         | Some (OList xs) \<Rightarrow> Inl AttributeError
         | Some (OInst s') \<Rightarrow> Inl Unmodelled)
     | _ \<Rightarrow> Inl AttributeError)"






section \<open>Auxiliary notions for the proofs\<close>

text \<open>An instance at \<open>a\<close> whose \<^verbatim>\<open>_data\<close> is the dictionary at \<open>d\<close> with the items \<open>m\<close>.\<close>

definition inst_dict :: "heap \<Rightarrow> addr \<Rightarrow> addr \<Rightarrow> (string \<times> val) list \<Rightarrow> bool" where
  "inst_dict h a d m \<longleftrightarrow>
     a \<noteq> d \<and> lookup h a = Some (OInst (Some (VRef d))) \<and> lookup h d = Some (ODict m)"

text \<open>The construction-time \<^verbatim>\<open>query\<close> and \<^verbatim>\<open>jailbreak_prompt\<close> are in the dictionary.\<close>

definition qp_fixed :: "(string \<times> val) list \<Rightarrow> val \<Rightarrow> val \<Rightarrow> bool" where
  "qp_fixed m q p \<longleftrightarrow> map_of m ''query'' = Some q \<and> map_of m ''jailbreak_prompt'' = Some p"

text \<open>The number a flag counts for in \<^verbatim>\<open>sum\<close>: an integer itself, a boolean 0 or 1.\<close>

fun flag_value :: "val \<Rightarrow> int" where
  "flag_value (VInt i) = i"
| "flag_value (VBool b) = (if b then 1 else 0)"
| "flag_value _ = 0"

fun is_flag :: "val \<Rightarrow> bool" where
  "is_flag (VInt i) = True"
| "is_flag (VBool b) = True"
| "is_flag _ = False"

text \<open>The store after \<^verbatim>\<open>Instance(query='test', jailbreak_prompt='test_prompt')\<close> in an empty
  store, with the field dictionary as a parameter.\<close>

definition sample_fields :: "(string \<times> val) list" where
  "sample_fields =
     [(''query'', VStr ''test''), (''jailbreak_prompt'', VStr ''test_prompt''),
      (''reference_responses'', VRef 2), (''target_responses'', VRef 3),
      (''eval_results'', VRef 4), (''parents'', VRef 5), (''children'', VRef 6),
      (''index'', VNone), (''attack_attrs'', VRef 7),
      (''id'', VStr (md5_hexdigest ''test|test_prompt''))]"

definition sample_heap :: "(string \<times> val) list \<Rightarrow> heap" where
  "sample_heap fields =
     [OInst (Some (VRef 1)), ODict fields, OList [], OList [], OList [], OList [], OList [],
      ODict [(''Mutation'', VNone), (''query_class'', VNone)]]"


text \<open>The names an attribute read resolves without \<^verbatim>\<open>__getattr__\<close>.\<close>

definition class_supplied :: "string \<Rightarrow> bool" where
  "class_supplied n \<longleftrightarrow> n = ''_data'' \<or> n \<in> set property_names \<or> n \<in> set method_names
     \<or> n \<in> set object_names"


text \<open>Auxiliary notions for \<^verbatim>\<open>copy\<close>: a store that only grew and changed at one address;
  what \<^verbatim>\<open>x or []\<close> stored for a sequence argument; the field dictionary \<^verbatim>\<open>__init__\<close> builds;
  field values that refer to existing objects only; the five sequence fields; the fields
  of a record built from a query and a prompt in an empty store.\<close>

definition stable :: "addr \<Rightarrow> heap \<Rightarrow> heap \<Rightarrow> bool" where
  "stable d h h' \<longleftrightarrow> length h \<le> length h' \<and> (\<forall>x < length h. x \<noteq> d \<longrightarrow> h' ! x = h ! x)"






section \<open>Facts about the store and the field dictionary\<close>

lemma lookup_alloc_old: "lookup h a = Some ob \<Longrightarrow> lookup (fst (alloc h ob')) a = Some ob"
  by (auto simp: lookup_def alloc_def nth_append split: if_splits)

lemma inst_dict_alloc: "inst_dict h a d m \<Longrightarrow> inst_dict (h @ [ob]) a d m"
  by (auto simp: inst_dict_def lookup_def nth_append split: if_splits)

lemma inst_dict_unique: "inst_dict h a d m \<Longrightarrow> inst_dict h a d' m' \<Longrightarrow> d' = d \<and> m' = m"
  by (auto simp: inst_dict_def)

lemma getattr_inst_dict:
  "inst_dict h a d m \<Longrightarrow>
   getattr h a n = (case map_of m n of None \<Rightarrow> Inl AttributeError | Some v \<Rightarrow> Inr v)"
  by (auto simp: inst_dict_def getattr_def subscript_def split: option.splits)

lemma setattr_inst_dict:
  "inst_dict h a d m \<Longrightarrow> n \<noteq> ''_data'' \<Longrightarrow>
   setattr h a n v = Inr (h[d := ODict (AList.update n v m)])"
  by (auto simp: inst_dict_def setattr_def slot_def store_item_def bindE_def)

lemma inst_dict_store:
  "inst_dict h a d m \<Longrightarrow> inst_dict (h[d := ODict m']) a d m'"
  by (auto simp: inst_dict_def lookup_def split: if_splits)

lemma or_else_inst_dict:
  "or_else h v ob = Inr (h', v') \<Longrightarrow> inst_dict h a d m \<Longrightarrow> inst_dict h' a d m"
  by (auto simp: or_else_def bindE_def alloc_def inst_dict_alloc split: sum.splits if_splits)

lemma set_or_inst_dict:
  assumes "set_or a n v ob h = Inr h'" "inst_dict h a d m" "n \<noteq> ''_data''"
  shows "\<exists>v'. inst_dict h' a d (AList.update n v' m)"
proof -
  from assms(1) obtain h1 v1 where o: "or_else h v ob = Inr (h1, v1)"
    and s: "setattr h1 a n v1 = Inr h'"
    by (auto simp: set_or_def bindE_def split: sum.splits)
  have i1: "inst_dict h1 a d m" using or_else_inst_dict[OF o assms(2)] .
  from s setattr_inst_dict[OF i1 assms(3), of v1]
  have "h' = h1[d := ODict (AList.update n v1 m)]" by simp
  with inst_dict_store[OF i1] show ?thesis by blast
qed

lemma data_update_inst_dict:
  "inst_dict h a d m \<Longrightarrow> data_update h a kvs = Inr (h[d := ODict (update_items m kvs)])"
  by (auto simp: inst_dict_def data_update_def slot_def bindE_def)

lemma map_of_update_items:
  "k \<notin> fst ` set kvs \<Longrightarrow> map_of (update_items m kvs) k = map_of m k"
  by (induction m kvs rule: update_items.induct) (auto simp: update_conv')

lemma generate_id_inst_dict:
  assumes "inst_dict h a d m" "map_of m ''query'' = Some q" "map_of m ''jailbreak_prompt'' = Some p"
    "py_format q = Inr qs" "py_format p = Inr ps"
  shows "generate_id h a = Inr (VStr (md5_hexdigest (qs @ ''|'' @ ps)))"
  using assms by (simp add: generate_id_def getattr_inst_dict bindE_def)



lemma bindE_Inr: "bindE m f = Inr y \<longleftrightarrow> (\<exists>x. m = Inr x \<and> f x = Inr y)"
  by (cases m) (auto simp: bindE_def)

lemma generate_id_Inr:
  assumes "generate_id h a = Inr i" "inst_dict h a d m"
    "map_of m ''query'' = Some q" "map_of m ''jailbreak_prompt'' = Some p"
  shows "\<exists>qs ps. py_format q = Inr qs \<and> py_format p = Inr ps
            \<and> i = VStr (md5_hexdigest (qs @ ''|'' @ ps))"
  using assms by (auto simp: generate_id_def getattr_inst_dict bindE_Inr)

lemma qp_fixed_update:
  "qp_fixed m q p \<Longrightarrow> n \<noteq> ''query'' \<Longrightarrow> n \<noteq> ''jailbreak_prompt'' \<Longrightarrow>
   qp_fixed (AList.update n v m) q p"
  by (simp add: qp_fixed_def update_conv')

lemma param_not_kwarg: "k \<in> set param_names \<Longrightarrow> k \<notin> fst ` set (kwargs_of kw)"
  by (auto simp: kwargs_of_def)

lemma qp_fixed_kwargs: "qp_fixed m q p \<Longrightarrow> qp_fixed (update_items m (kwargs_of kw)) q p"
  by (simp add: qp_fixed_def map_of_update_items param_not_kwarg param_names_def)

lemma init_shape:
  assumes "init h kw = Inr (h', a)"
  shows "\<exists>m qs ps. inst_dict h' a (Suc (length h)) m \<and> a = length h
           \<and> qp_fixed m (arg kw ''query'') (arg kw ''jailbreak_prompt'')
           \<and> py_format (arg kw ''query'') = Inr qs
           \<and> py_format (arg kw ''jailbreak_prompt'') = Inr ps
           \<and> map_of m ''id'' = Some (VStr (md5_hexdigest (qs @ ''|'' @ ps)))"
proof -
  let ?d = "Suc (length h)"
  let ?q = "arg kw ''query''" and ?p = "arg kw ''jailbreak_prompt''"
  from assms have a: "a = length h"
    by (auto simp: init_def alloc_def bindE_Inr split: if_splits)
  from assms obtain h2 h3 h4 h5 h6 h7 h8 h9 h10 h11 h12 i where
    s2: "setattr (h @ [OInst None, ODict []]) a ''_data'' (VRef ?d) = Inr h2" and
    s3: "setattr h2 a ''query'' ?q = Inr h3" and
    s4: "setattr h3 a ''jailbreak_prompt'' ?p = Inr h4" and
    s5: "set_or a ''reference_responses'' (arg kw ''reference_responses'') (OList []) h4 = Inr h5" and
    s6: "set_or a ''target_responses'' (arg kw ''target_responses'') (OList []) h5 = Inr h6" and
    s7: "set_or a ''eval_results'' (arg kw ''eval_results'') (OList []) h6 = Inr h7" and
    s8: "set_or a ''parents'' (arg kw ''parents'') (OList []) h7 = Inr h8" and
    s9: "set_or a ''children'' (arg kw ''children'') (OList []) h8 = Inr h9" and
    s10: "setattr h9 a ''index'' VNone = Inr h10" and
    s11: "set_or a ''attack_attrs'' (arg kw ''attack_attrs'')
            (ODict [(''Mutation'', VNone), (''query_class'', VNone)]) h10 = Inr h11" and
    s12: "data_update h11 a (kwargs_of kw) = Inr h12" and
    gi: "generate_id h12 a = Inr i" and
    s13: "setattr h12 a ''id'' i = Inr h'"
    by (auto simp: init_def alloc_def bindE_Inr split: if_splits)
  from s2 a have i2: "inst_dict h2 a ?d []"
    by (auto simp: setattr_def lookup_def inst_dict_def nth_append)
  from s3 setattr_inst_dict[OF i2, of "''query''" ?q]
  have e3: "h3 = h2[?d := ODict (AList.update ''query'' ?q [])]" by simp
  have i3: "inst_dict h3 a ?d [(''query'', ?q)]"
    unfolding e3 using inst_dict_store[OF i2] by simp
  from s4 setattr_inst_dict[OF i3, of "''jailbreak_prompt''" ?p]
  have e4: "h4 = h3[?d := ODict (AList.update ''jailbreak_prompt'' ?p [(''query'', ?q)])]" by simp
  obtain m4 where i4: "inst_dict h4 a ?d m4" and q4: "qp_fixed m4 ?q ?p"
    using inst_dict_store[OF i3] unfolding e4 by (fastforce simp: qp_fixed_def)
  from set_or_inst_dict[OF s5 i4] q4 obtain m5 where i5: "inst_dict h5 a ?d m5" and q5: "qp_fixed m5 ?q ?p"
    by (fastforce intro: qp_fixed_update)
  from set_or_inst_dict[OF s6 i5] q5 obtain m6 where i6: "inst_dict h6 a ?d m6" and q6: "qp_fixed m6 ?q ?p"
    by (fastforce intro: qp_fixed_update)
  from set_or_inst_dict[OF s7 i6] q6 obtain m7 where i7: "inst_dict h7 a ?d m7" and q7: "qp_fixed m7 ?q ?p"
    by (fastforce intro: qp_fixed_update)
  from set_or_inst_dict[OF s8 i7] q7 obtain m8 where i8: "inst_dict h8 a ?d m8" and q8: "qp_fixed m8 ?q ?p"
    by (fastforce intro: qp_fixed_update)
  from set_or_inst_dict[OF s9 i8] q8 obtain m9 where i9: "inst_dict h9 a ?d m9" and q9: "qp_fixed m9 ?q ?p"
    by (fastforce intro: qp_fixed_update)
  from s10 setattr_inst_dict[OF i9, of "''index''" VNone]
  have e10: "h10 = h9[?d := ODict (AList.update ''index'' VNone m9)]" by simp
  have i10: "inst_dict h10 a ?d (AList.update ''index'' VNone m9)"
    unfolding e10 using inst_dict_store[OF i9] .
  have q10: "qp_fixed (AList.update ''index'' VNone m9) ?q ?p"
    using q9 by (simp add: qp_fixed_update)
  from set_or_inst_dict[OF s11 i10] q10 obtain m11 where i11: "inst_dict h11 a ?d m11"
    and q11: "qp_fixed m11 ?q ?p"
    by (fastforce intro: qp_fixed_update)
  from s12 data_update_inst_dict[OF i11, of "kwargs_of kw"]
  have e12: "h12 = h11[?d := ODict (update_items m11 (kwargs_of kw))]" by simp
  let ?m12 = "update_items m11 (kwargs_of kw)"
  have i12: "inst_dict h12 a ?d ?m12" unfolding e12 using inst_dict_store[OF i11] .
  have q12: "qp_fixed ?m12 ?q ?p" using q11 by (rule qp_fixed_kwargs)
  from q12 have "map_of ?m12 ''query'' = Some ?q" "map_of ?m12 ''jailbreak_prompt'' = Some ?p"
    by (simp_all add: qp_fixed_def)
  from generate_id_Inr[OF gi i12 this] obtain qs ps where
    f: "py_format ?q = Inr qs" "py_format ?p = Inr ps"
       "i = VStr (md5_hexdigest (qs @ ''|'' @ ps))"
    by blast
  from s13 setattr_inst_dict[OF i12, of "''id''" i]
  have e13: "h' = h12[?d := ODict (AList.update ''id'' i ?m12)]" by simp
  have i13: "inst_dict h' a ?d (AList.update ''id'' i ?m12)"
    unfolding e13 using inst_dict_store[OF i12] .
  have q13: "qp_fixed (AList.update ''id'' i ?m12) ?q ?p"
    using q12 by (simp add: qp_fixed_update)
  have "map_of (AList.update ''id'' i ?m12) ''id'' = Some i" by (simp add: update_conv')
  with i13 q13 f a show ?thesis by blast
qed


lemma length_le_hex: "length (le_hex w) = 8"
  by (simp add: le_hex_def hexbyte_def length_concat comp_def sum_list_triv)

lemma length_md5_hexdigest: "length (md5_hexdigest s) = 32"
  by (simp add: md5_hexdigest_def Let_def length_le_hex split: prod.split)

lemma hexbyte_chars: "set (hexbyte b) \<subseteq> set ''0123456789abcdef''"
proof -
  have n: "''0123456789abcdef'' ! i \<in> set ''0123456789abcdef''" if "i < 16" for i
    by (rule nth_mem) (use that in simp)
  have "''0123456789abcdef'' ! (b div 16 mod 16) \<in> set ''0123456789abcdef''"
    "''0123456789abcdef'' ! (b mod 16) \<in> set ''0123456789abcdef''"
    by (rule n, simp)+
  then show ?thesis unfolding hexbyte_def by (simp only: list.set insert_subset empty_subsetI simp_thms)
qed

lemma le_hex_chars: "set (le_hex w) \<subseteq> set ''0123456789abcdef''"
  using hexbyte_chars by (auto simp: le_hex_def simp del: set_simps)

lemma md5_hexdigest_chars: "set (md5_hexdigest s) \<subseteq> set ''0123456789abcdef''"
  using le_hex_chars
  by (simp add: md5_hexdigest_def Let_def split: prod.split del: set_simps) blast

lemma replicate_numeral: "replicate (numeral k) x = x # replicate (pred_numeral k) x"
  by (simp add: numeral_eq_Suc)

lemma md5_step_numeral:
  "md5_step M (numeral a, numeral b, numeral c, numeral d) i =
   (numeral d, u32 (numeral b + rotl32 (md5_s ! i)
      (u32 (md5_F i (numeral b) (numeral c) (numeral d) + numeral a + md5_K ! i + M ! md5_g i))),
    numeral b, numeral c)"
  by simp

lemmas md5_eval = md5_step_numeral md5_K_def md5_s_def md5_F_def md5_g_def u32_def not32_def
  rotl32_def upt_rec[of _ "numeral _"] upt_rec[of 0] md5_hexdigest_def md5_pad_def md5_block_def
  le_hex_def hexbyte_def replicate_numeral Let_def

lemma md5_test_prompt: "md5_hexdigest ''test|test_prompt'' = ''732a9994096b2573ddc05cc82df401b6''"
  supply md5_step.simps [simp del] by (simp add: md5_eval)



lemmas model_defs = lookup_def alloc_def bindE_def truthy_def or_else_def py_format_def py_len_def
  py_iter_def py_sum_def subscript_def store_item_def del_item_def slot_def getattr_def setattr_def
  getitem_def setitem_def generate_id_def param_names_def arg_def kwargs_of_def set_or_def
  data_update_def init_def num_query_def num_jailbreak_def num_reject_def

lemma sum_vals_flags:
  "list_all is_flag es \<Longrightarrow> sum_vals acc es = Inr (acc + sum_list (map flag_value es))"
proof (induction es arbitrary: acc)
  case Nil
  then show ?case by simp
next
  case (Cons x xs)
  then show ?case by (cases x) simp_all
qed

lemma del_step_present:
  "inst_dict h a d m \<Longrightarrow> k \<in> fst ` set m \<Longrightarrow>
   bindE (slot h a) (\<lambda>s. del_item h s k) = Inr (h[d := ODict (AList.delete k m)])"
  by (auto simp: inst_dict_def slot_def del_item_def bindE_def)

lemma del_step_absent:
  "inst_dict h a d m \<Longrightarrow> k \<notin> fst ` set m \<Longrightarrow>
   bindE (slot h a) (\<lambda>s. del_item h s k) = Inl KeyError"
  by (auto simp: inst_dict_def slot_def del_item_def bindE_def)

lemma inst_dict_same: "inst_dict h a d m \<Longrightarrow> h[d := ODict m] = h"
  by (auto simp: inst_dict_def lookup_def list_update_same_conv split: if_splits)

lemma keys_delete: "fst ` set (AList.delete p m) = fst ` set m - {p}"
proof -
  have "set (map fst (AList.delete p m)) = set (map fst m) - {p}"
    by (simp add: delete_keys)
  then show ?thesis by simp
qed

lemma delete_partial:
  assumes "inst_dict h a d m" "distinct pre" "set pre \<subseteq> fst ` set m"
    "k \<notin> fst ` set m \<or> k \<in> set pre"
  shows "delete h a (pre @ k # post)
         = (h[d := ODict (filter (\<lambda>kv. fst kv \<notin> set pre) m)], Some KeyError)"
  using assms
proof (induction pre arbitrary: h m)
  case Nil
  then show ?case by (simp add: del_step_absent inst_dict_same)
next
  case (Cons p pre)
  let ?m = "AList.delete p m" and ?h = "h[d := ODict (AList.delete p m)]"
  have i: "inst_dict ?h a d ?m" using inst_dict_store[OF Cons.prems(1)] .
  have "delete ?h a (pre @ k # post)
        = (?h[d := ODict (filter (\<lambda>kv. fst kv \<notin> set pre) ?m)], Some KeyError)"
    using Cons.prems by (intro Cons.IH[OF i]) (auto simp: keys_delete)
  moreover have "filter (\<lambda>kv. fst kv \<notin> set pre) ?m = filter (\<lambda>kv. fst kv \<notin> set (p # pre)) m"
    by (auto simp: AList.delete_eq intro: filter_cong)
  ultimately show ?case using Cons.prems by (simp add: del_step_present)
qed

lemma getattr_eq_getitem: "getitem h a n = getattr h a n" by (simp add: getitem_def)

lemma attr_read_plain:
  "inst_dict h a d m \<Longrightarrow> n \<noteq> ''_data'' \<Longrightarrow> n \<notin> set property_names \<Longrightarrow>
   n \<notin> set method_names \<Longrightarrow> n \<notin> set object_names \<Longrightarrow>
   attr_read h a n = as_field (getattr h a n)"
  by (auto simp: attr_read_def inst_dict_def property_names_def)

lemma assign_all_keeps:
  assumes "inst_dict h a d m" "map_of m k = Some i"
    "\<forall>w \<in> set ws. fst (snd w) \<noteq> k \<and> fst (snd w) \<noteq> ''_data''"
  shows "\<exists>h' m'. assign_all h a ws = Inr h' \<and> inst_dict h' a d m' \<and> map_of m' k = Some i"
  using assms
proof (induction ws arbitrary: h m)
  case Nil
  then show ?case by auto
next
  case (Cons w ws)
  obtain st n v where w: "w = (st, n, v)" by (cases w)
  from Cons.prems(3) w have n: "n \<noteq> k" "n \<noteq> ''_data''" by auto
  let ?h = "h[d := ODict (AList.update n v m)]"
  have s: "setattr h a n v = Inr ?h" using setattr_inst_dict[OF Cons.prems(1) n(2)] .
  have i: "inst_dict ?h a d (AList.update n v m)" using inst_dict_store[OF Cons.prems(1)] .
  have k: "map_of (AList.update n v m) k = Some i" using Cons.prems(2) n by (simp add: update_conv')
  from Cons.IH[OF i k] Cons.prems(3) obtain h' m' where
    "assign_all ?h a ws = Inr h'" "inst_dict h' a d m'" "map_of m' k = Some i" by auto
  then show ?case using s w by (cases st) (auto simp: bindE_def setitem_def)
qed

lemma init_sample:
  "init [] [(''query'', VStr ''test''), (''jailbreak_prompt'', VStr ''test_prompt'')]
     = Inr (sample_heap sample_fields, 0)"
  by (simp add: model_defs sample_heap_def sample_fields_def)

lemma inst_dict_sample: "inst_dict (sample_heap m) 0 1 m"
  by (simp add: inst_dict_def sample_heap_def lookup_def)

lemma sample_heap_store: "(sample_heap m)[Suc 0 := ODict m'] = sample_heap m'"
  by (simp add: sample_heap_def)


lemma map_of_filter_keys:
  "map_of (filter (\<lambda>kv. fst kv \<notin> S) m) n = (if n \<in> S then None else map_of m n)"
  by (induction m) auto

lemma map_of_None_keys: "map_of m n = None \<longleftrightarrow> n \<notin> fst ` set m"
  by (simp add: map_of_eq_None_iff)





lemma stable_lookup: "stable d h h' \<Longrightarrow> x < length h \<Longrightarrow> x \<noteq> d \<Longrightarrow> lookup h' x = lookup h x"
  by (auto simp: stable_def lookup_def)


lemma truthy_stable:
  "stable d h h' \<Longrightarrow> y < length h \<Longrightarrow> y \<noteq> d \<Longrightarrow> truthy h' (VRef y) = truthy h (VRef y)"
  by (simp add: truthy_def stable_lookup)
















lemma dict_items_lookup: "lookup h d = Some (ODict m) \<Longrightarrow> dict_items h (VRef d) = Inr m"
  by (simp add: dict_items_def)












section \<open>The id of a new record\<close>

text \<open>
  C3. Two records constructed with the same strings as \<^verbatim>\<open>query\<close> and \<^verbatim>\<open>jailbreak_prompt\<close>
  get the same \<^verbatim>\<open>id\<close>, whatever the other keywords are: it is the MD5 digest of
  \<^verbatim>\<open>query|jailbreak_prompt\<close>, printed as 32 lower-case hex digits (128 bits).
\<close>

theorem init_id_is_digest:
  assumes "init h1 kw1 = Inr (h1', a1)" and "init h2 kw2 = Inr (h2', a2)"
    and "map_of kw1 ''query'' = Some (VStr q)" and "map_of kw1 ''jailbreak_prompt'' = Some (VStr p)"
    and "map_of kw2 ''query'' = Some (VStr q)" and "map_of kw2 ''jailbreak_prompt'' = Some (VStr p)"
  shows "getattr h1' a1 ''id'' = Inr (VStr (md5_hexdigest (q @ ''|'' @ p)))
       \<and> getattr h2' a2 ''id'' = getattr h1' a1 ''id''
       \<and> length (md5_hexdigest (q @ ''|'' @ p)) = 32
       \<and> set (md5_hexdigest (q @ ''|'' @ p)) \<subseteq> set ''0123456789abcdef''"
proof -
  have one: "getattr h' a ''id'' = Inr (VStr (md5_hexdigest (q @ ''|'' @ p)))"
    if "init h kw = Inr (h', a)" "map_of kw ''query'' = Some (VStr q)"
       "map_of kw ''jailbreak_prompt'' = Some (VStr p)" for h kw h' a
  proof -
    from init_shape[OF that(1)] obtain m qs ps where
      i: "inst_dict h' a (Suc (length h)) m" and
      f: "py_format (arg kw ''query'') = Inr qs" "py_format (arg kw ''jailbreak_prompt'') = Inr ps" and
      d: "map_of m ''id'' = Some (VStr (md5_hexdigest (qs @ ''|'' @ ps)))"
      by blast
    from f that(2,3) have "qs = q" "ps = p" by (simp_all add: arg_def py_format_def)
    with d show ?thesis by (simp add: getattr_inst_dict[OF i])
  qed
  from one[OF assms(1,3,4)] one[OF assms(2,5,6)] length_md5_hexdigest md5_hexdigest_chars
  show ?thesis by simp
qed

theorem init_id_is_digest_witness:
  "\<exists>h1' a1 h2' a2.
     init [] [(''query'', VStr ''test''), (''jailbreak_prompt'', VStr ''test_prompt'')] = Inr (h1', a1)
   \<and> init [OList [VStr ''a'', VStr ''b''], OList [VInt 1, VInt 0]]
        [(''query'', VStr ''test''), (''jailbreak_prompt'', VStr ''test_prompt''),
         (''target_responses'', VRef 0), (''eval_results'', VRef 1), (''note'', VInt 7)] = Inr (h2', a2)
   \<and> getattr h1' a1 ''id'' = Inr (VStr (md5_hexdigest ''test|test_prompt''))
   \<and> getattr h2' a2 ''id'' = getattr h1' a1 ''id''"
proof -
  let ?kw1 = "[(''query'', VStr ''test''), (''jailbreak_prompt'', VStr ''test_prompt'')]"
  let ?kw2 = "[(''query'', VStr ''test''), (''jailbreak_prompt'', VStr ''test_prompt''),
         (''target_responses'', VRef 0), (''eval_results'', VRef 1), (''note'', VInt 7)]"
  obtain h1' a1 where i1: "init [] ?kw1 = Inr (h1', a1)"
    by (simp add: model_defs)
  obtain h2' a2 where i2: "init [OList [VStr ''a'', VStr ''b''], OList [VInt 1, VInt 0]] ?kw2 = Inr (h2', a2)"
    by (simp add: model_defs)
  have k: "map_of ?kw1 ''query'' = Some (VStr ''test'')"
    "map_of ?kw1 ''jailbreak_prompt'' = Some (VStr ''test_prompt'')"
    "map_of ?kw2 ''query'' = Some (VStr ''test'')"
    "map_of ?kw2 ''jailbreak_prompt'' = Some (VStr ''test_prompt'')"
    by simp_all
  from init_id_is_digest[OF i1 i2 k] i1 i2 show ?thesis by simp
qed

section \<open>Derived counts\<close>

text \<open>
  C5. \<^verbatim>\<open>num_query\<close> is the length of \<^verbatim>\<open>target_responses\<close>, \<^verbatim>\<open>num_jailbreak\<close> the sum of
  \<^verbatim>\<open>eval_results\<close>, \<^verbatim>\<open>num_reject\<close> the length of \<^verbatim>\<open>eval_results\<close> minus that sum. The record
  built from a query and a prompt only has 0, 0, 0; the one built with two target
  responses and the results 1, 0 has 2, 1, 1.
\<close>

theorem derived_counts:
  assumes "getattr h a ''target_responses'' = Inr (VRef t)" and "lookup h t = Some (OList ts)"
    and "getattr h a ''eval_results'' = Inr (VRef e)" and "lookup h e = Some (OList es)"
    and "list_all is_flag es"
  shows "num_query h a = Inr (int (length ts))
       \<and> num_jailbreak h a = Inr (sum_list (map flag_value es))
       \<and> num_reject h a = Inr (int (length es) - sum_list (map flag_value es))
       \<and> (\<exists>h1 a1. init [] [(''query'', VStr ''test''), (''jailbreak_prompt'', VStr ''test_prompt'')]
                      = Inr (h1, a1)
            \<and> num_query h1 a1 = Inr 0 \<and> num_jailbreak h1 a1 = Inr 0 \<and> num_reject h1 a1 = Inr 0)
       \<and> (\<exists>h2 a2. init [OList [VStr ''a'', VStr ''b''], OList [VInt 1, VInt 0]]
                      [(''query'', VStr ''test''), (''jailbreak_prompt'', VStr ''test_prompt''),
                       (''target_responses'', VRef 0), (''eval_results'', VRef 1)] = Inr (h2, a2)
            \<and> num_query h2 a2 = Inr 2 \<and> num_jailbreak h2 a2 = Inr 1 \<and> num_reject h2 a2 = Inr 1)"
proof -
  have g: "num_query h a = Inr (int (length ts))"
    "num_jailbreak h a = Inr (sum_list (map flag_value es))"
    "num_reject h a = Inr (int (length es) - sum_list (map flag_value es))"
    using assms
    by (simp_all add: num_query_def num_jailbreak_def num_reject_def bindE_def py_len_def
        py_sum_def py_iter_def sum_vals_flags)
  have c1: "\<exists>h1 a1. init [] [(''query'', VStr ''test''), (''jailbreak_prompt'', VStr ''test_prompt'')]
                      = Inr (h1, a1)
            \<and> num_query h1 a1 = Inr 0 \<and> num_jailbreak h1 a1 = Inr 0 \<and> num_reject h1 a1 = Inr 0"
    by (simp add: model_defs)
  have c2: "\<exists>h2 a2. init [OList [VStr ''a'', VStr ''b''], OList [VInt 1, VInt 0]]
                      [(''query'', VStr ''test''), (''jailbreak_prompt'', VStr ''test_prompt''),
                       (''target_responses'', VRef 0), (''eval_results'', VRef 1)] = Inr (h2, a2)
            \<and> num_query h2 a2 = Inr 2 \<and> num_jailbreak h2 a2 = Inr 1 \<and> num_reject h2 a2 = Inr 1"
    by (simp add: model_defs)
  from g c1 c2 show ?thesis by blast
qed

theorem derived_counts_witness:
  "getattr [OInst (Some (VRef 1)),
            ODict [(''target_responses'', VRef 2), (''eval_results'', VRef 3)],
            OList [VStr ''a'', VStr ''b'', VStr ''c''], OList [VInt 1, VBool True, VInt 0]] 0
      ''target_responses'' = Inr (VRef 2)
   \<and> num_query [OInst (Some (VRef 1)),
            ODict [(''target_responses'', VRef 2), (''eval_results'', VRef 3)],
            OList [VStr ''a'', VStr ''b'', VStr ''c''], OList [VInt 1, VBool True, VInt 0]] 0 = Inr 3
   \<and> num_jailbreak [OInst (Some (VRef 1)),
            ODict [(''target_responses'', VRef 2), (''eval_results'', VRef 3)],
            OList [VStr ''a'', VStr ''b'', VStr ''c''], OList [VInt 1, VBool True, VInt 0]] 0 = Inr 2
   \<and> num_reject [OInst (Some (VRef 1)),
            ODict [(''target_responses'', VRef 2), (''eval_results'', VRef 3)],
            OList [VStr ''a'', VStr ''b'', VStr ''c''], OList [VInt 1, VBool True, VInt 0]] 0 = Inr 1"
proof -
  let ?h = "[OInst (Some (VRef 1)),
            ODict [(''target_responses'', VRef 2), (''eval_results'', VRef 3)],
            OList [VStr ''a'', VStr ''b'', VStr ''c''], OList [VInt 1, VBool True, VInt 0]]"
  have a: "getattr ?h 0 ''target_responses'' = Inr (VRef 2)"
    "lookup ?h 2 = Some (OList [VStr ''a'', VStr ''b'', VStr ''c''])"
    "getattr ?h 0 ''eval_results'' = Inr (VRef 3)"
    "lookup ?h 3 = Some (OList [VInt 1, VBool True, VInt 0])"
    "list_all is_flag [VInt 1, VBool True, VInt 0]"
    by (simp_all add: getattr_def subscript_def lookup_def)
  from derived_counts[OF a] a(1) show ?thesis by simp
qed

section \<open>The id after later assignments\<close>

text \<open>
  C6. The \<^verbatim>\<open>id\<close> is assigned at construction only. After any assignments to \<^verbatim>\<open>query\<close> or
  \<^verbatim>\<open>jailbreak_prompt\<close>, by attribute or by key, every way of reading \<^verbatim>\<open>id\<close> still gives
  the digest of the query and prompt of the construction.
\<close>

theorem id_not_recomputed:
  assumes "init h kw = Inr (h1, a)"
    and "\<forall>w \<in> set ws. fst (snd w) = ''query'' \<or> fst (snd w) = ''jailbreak_prompt''"
  shows "\<exists>qs ps h2. py_format (arg kw ''query'') = Inr qs
          \<and> py_format (arg kw ''jailbreak_prompt'') = Inr ps
          \<and> getattr h1 a ''id'' = Inr (VStr (md5_hexdigest (qs @ ''|'' @ ps)))
          \<and> assign_all h1 a ws = Inr h2
          \<and> getattr h2 a ''id'' = Inr (VStr (md5_hexdigest (qs @ ''|'' @ ps)))
          \<and> getitem h2 a ''id'' = Inr (VStr (md5_hexdigest (qs @ ''|'' @ ps)))
          \<and> attr_read h2 a ''id'' = Inr (Field (VStr (md5_hexdigest (qs @ ''|'' @ ps))))"
proof -
  from init_shape[OF assms(1)] obtain m qs ps where
    i: "inst_dict h1 a (Suc (length h)) m" and
    f: "py_format (arg kw ''query'') = Inr qs" "py_format (arg kw ''jailbreak_prompt'') = Inr ps" and
    d: "map_of m ''id'' = Some (VStr (md5_hexdigest (qs @ ''|'' @ ps)))"
    by blast
  from assms(2) have "\<forall>w \<in> set ws. fst (snd w) \<noteq> ''id'' \<and> fst (snd w) \<noteq> ''_data''"
    by auto
  from assign_all_keeps[OF i d this] obtain h2 m2 where
    a2: "assign_all h1 a ws = Inr h2" and i2: "inst_dict h2 a (Suc (length h)) m2" and
    d2: "map_of m2 ''id'' = Some (VStr (md5_hexdigest (qs @ ''|'' @ ps)))"
    by blast
  have r: "attr_read h2 a ''id'' = as_field (getattr h2 a ''id'')"
    by (rule attr_read_plain[OF i2]) (simp_all add: property_names_def method_names_def object_names_def)
  from f d a2 d2 r show ?thesis
    by (simp add: getattr_inst_dict[OF i] getattr_inst_dict[OF i2] getitem_def as_field_def)
qed

theorem id_not_recomputed_witness:
  "\<exists>h2. assign_all (sample_heap sample_fields) 0
           [(ByAttr, ''query'', VStr ''other''), (ByKey, ''jailbreak_prompt'', VStr ''changed'')] = Inr h2
       \<and> getattr h2 0 ''query'' = Inr (VStr ''other'')
       \<and> getattr h2 0 ''jailbreak_prompt'' = Inr (VStr ''changed'')
       \<and> getattr h2 0 ''id'' = Inr (VStr (md5_hexdigest ''test|test_prompt''))"
proof -
  let ?ws = "[(ByAttr, ''query'', VStr ''other''), (ByKey, ''jailbreak_prompt'', VStr ''changed'')]"
  have w: "\<forall>w \<in> set ?ws. fst (snd w) = ''query'' \<or> fst (snd w) = ''jailbreak_prompt''"
    by simp
  have e: "assign_all (sample_heap sample_fields) 0 ?ws
      = Inr (sample_heap (AList.update ''jailbreak_prompt'' (VStr ''changed'')
               (AList.update ''query'' (VStr ''other'') sample_fields)))"
    by (simp add: model_defs sample_heap_def sample_fields_def)
  from id_not_recomputed[OF init_sample w] e show ?thesis
    by (simp add: arg_def py_format_def getattr_inst_dict[OF inst_dict_sample] sample_fields_def)
qed
section \<open>Attribute access and key access\<close>

text \<open>
  C7, as stated, fails for a field whose name the class already uses: after the write
  \<^verbatim>\<open>r.copy = 5\<close> the key read \<^verbatim>\<open>r['copy']\<close> gives 5, and the attribute read \<^verbatim>\<open>r.copy\<close> gives
  the method of the class.
\<close>

theorem access_styles_counterexample:
  "init [] [(''query'', VStr ''test''), (''jailbreak_prompt'', VStr ''test_prompt'')]
     = Inr (sample_heap sample_fields, 0)
   \<and> setattr (sample_heap sample_fields) 0 ''copy'' (VInt 5)
     = Inr (sample_heap (sample_fields @ [(''copy'', VInt 5)]))
   \<and> getitem (sample_heap (sample_fields @ [(''copy'', VInt 5)])) 0 ''copy'' = Inr (VInt 5)
   \<and> attr_read (sample_heap (sample_fields @ [(''copy'', VInt 5)])) 0 ''copy'' = Inr (Member ''copy'')
   \<and> attr_read (sample_heap (sample_fields @ [(''copy'', VInt 5)])) 0 ''copy'' \<noteq> Inr (Field (VInt 5))"
  by (simp add: model_defs sample_heap_def sample_fields_def attr_read_def method_names_def)

text \<open>
  C7, amended. For a record whose \<^verbatim>\<open>_data\<close> is its dictionary and a name that is neither
  \<^verbatim>\<open>_data\<close> nor a property, a method or an inherited attribute of the class: a write by
  key is the write by attribute, after it every read (\<^verbatim>\<open>__getattr__\<close>, by key, by
  attribute) gives the value written, and after the deletion of a present name every
  read fails with AttributeError.
\<close>

theorem access_styles_agree:
  assumes "inst_dict h a d m" and "n \<noteq> ''_data''"
    and "n \<notin> set property_names" and "n \<notin> set method_names" and "n \<notin> set object_names"
  shows "setitem h a n v = setattr h a n v
       \<and> (\<exists>h'. setattr h a n v = Inr h' \<and> getattr h' a n = Inr v \<and> getitem h' a n = Inr v
                \<and> attr_read h' a n = Inr (Field v))
       \<and> (n \<in> fst ` set m \<longrightarrow>
            (\<exists>h'. delete h a [n] = (h', None) \<and> getattr h' a n = Inl AttributeError
                \<and> getitem h' a n = Inl AttributeError \<and> attr_read h' a n = Inl AttributeError))"
proof -
  let ?hw = "h[d := ODict (AList.update n v m)]" and ?hd = "h[d := ODict (AList.delete n m)]"
  have iw: "inst_dict ?hw a d (AList.update n v m)" and idl: "inst_dict ?hd a d (AList.delete n m)"
    using inst_dict_store[OF assms(1)] by blast+
  have w: "setattr h a n v = Inr ?hw" using setattr_inst_dict[OF assms(1,2)] .
  have gw: "getattr ?hw a n = Inr v" by (simp add: getattr_inst_dict[OF iw] update_conv')
  have rw: "attr_read ?hw a n = Inr (Field v)"
    by (simp add: attr_read_plain[OF iw assms(2-5)] gw as_field_def)
  have gd: "getattr ?hd a n = Inl AttributeError"
    by (simp add: getattr_inst_dict[OF idl] delete_conv')
  have rd: "attr_read ?hd a n = Inl AttributeError"
    by (simp add: attr_read_plain[OF idl assms(2-5)] gd as_field_def)
  have dl: "delete h a [n] = (?hd, None)" if "n \<in> fst ` set m"
    by (simp add: del_step_present[OF assms(1) that])
  from w gw rw gd rd dl show ?thesis by (simp add: getitem_def setitem_def)
qed

theorem access_styles_agree_witness:
  "setattr (sample_heap sample_fields) 0 ''note'' (VInt 5)
     = Inr (sample_heap (sample_fields @ [(''note'', VInt 5)]))
   \<and> attr_read (sample_heap (sample_fields @ [(''note'', VInt 5)])) 0 ''note'' = Inr (Field (VInt 5))
   \<and> getitem (sample_heap (sample_fields @ [(''note'', VInt 5)])) 0 ''note'' = Inr (VInt 5)
   \<and> (\<exists>h'. delete (sample_heap sample_fields) 0 [''index''] = (h', None)
          \<and> getitem h' 0 ''index'' = Inl AttributeError
          \<and> attr_read h' 0 ''index'' = Inl AttributeError)"
proof -
  have n: "''note'' \<noteq> ''_data''" "''note'' \<notin> set property_names" "''note'' \<notin> set method_names"
    "''note'' \<notin> set object_names"
    and i: "''index'' \<noteq> ''_data''" "''index'' \<notin> set property_names" "''index'' \<notin> set method_names"
    "''index'' \<notin> set object_names" "''index'' \<in> fst ` set sample_fields"
    by (simp_all add: property_names_def method_names_def object_names_def sample_fields_def)
  have e: "setattr (sample_heap sample_fields) 0 ''note'' (VInt 5)
     = Inr (sample_heap (sample_fields @ [(''note'', VInt 5)]))"
    by (simp add: model_defs sample_heap_def sample_fields_def)
  from access_styles_agree[OF inst_dict_sample n, of sample_fields "VInt 5"]
    access_styles_agree[OF inst_dict_sample i(1-4), of sample_fields VNone] i(5) e
  show ?thesis by auto
qed

section \<open>Errors\<close>

text \<open>
  C8, as stated, fails in three ways. A name the class defines reads by attribute although
  it is not stored: \<^verbatim>\<open>keys\<close> is not in the storage of a new record, \<^verbatim>\<open>r['keys']\<close> fails and
  \<^verbatim>\<open>r.keys\<close> finds the method, also after \<^verbatim>\<open>r['keys'] = 1\<close> and \<^verbatim>\<open>r.delete('keys')\<close>. An
  attribute read can raise another error: after \<^verbatim>\<open>r.target_responses = 5\<close> the name
  \<^verbatim>\<open>num_query\<close> is not stored and \<^verbatim>\<open>r.num_query\<close> raises TypeError. And once
  \<^verbatim>\<open>r._data = 5\<close> has replaced the dictionary, the read of an absent name raises TypeError.
\<close>

theorem missing_field_counterexample:
  "init [] [(''query'', VStr ''test''), (''jailbreak_prompt'', VStr ''test_prompt'')]
     = Inr (sample_heap sample_fields, 0)
   \<and> ''keys'' \<notin> fst ` set sample_fields
   \<and> getitem (sample_heap sample_fields) 0 ''keys'' = Inl AttributeError
   \<and> attr_read (sample_heap sample_fields) 0 ''keys'' = Inr (Member ''keys'')
   \<and> setitem (sample_heap sample_fields) 0 ''keys'' (VInt 1)
       = Inr (sample_heap (sample_fields @ [(''keys'', VInt 1)]))
   \<and> delete (sample_heap (sample_fields @ [(''keys'', VInt 1)])) 0 [''keys'']
       = (sample_heap sample_fields, None)
   \<and> setattr (sample_heap sample_fields) 0 ''target_responses'' (VInt 5)
     = Inr (sample_heap (AList.update ''target_responses'' (VInt 5) sample_fields))
   \<and> ''num_query'' \<notin> fst ` set (AList.update ''target_responses'' (VInt 5) sample_fields)
   \<and> attr_read (sample_heap (AList.update ''target_responses'' (VInt 5) sample_fields)) 0
        ''num_query'' = Inl TypeError
   \<and> setattr (sample_heap sample_fields) 0 ''_data'' (VInt 5)
       = Inr ((sample_heap sample_fields)[0 := OInst (Some (VInt 5))])
   \<and> getitem ((sample_heap sample_fields)[0 := OInst (Some (VInt 5))]) 0 ''note''
       = Inl TypeError"
  by (simp add: model_defs sample_heap_def sample_fields_def attr_read_def method_names_def
      property_read_def)

text \<open>
  C8, amended. For a record whose \<^verbatim>\<open>_data\<close> is its dictionary. A name that is not stored
  fails to read by key with AttributeError, fails to read by attribute likewise unless
  the class supplies the name, and fails to delete with KeyError. A stored name reads by
  key, and by attribute unless it is the name of a property; once deleted it fails to
  read by key, and by attribute unless the class supplies the name, and fails to delete
  again. Nothing else raises: deleting stored names and writing any value under any name
  succeed.
\<close>

theorem missing_field_errors:
  assumes "inst_dict h a d m"
  shows "(n \<notin> fst ` set m \<longrightarrow>
            getattr h a n = Inl AttributeError \<and> getitem h a n = Inl AttributeError
          \<and> delete h a (n # ks) = (h, Some KeyError)
          \<and> (\<not> class_supplied n \<longrightarrow> attr_read h a n = Inl AttributeError))
       \<and> (n \<in> fst ` set m \<longrightarrow>
            (\<exists>x. map_of m n = Some x \<and> getattr h a n = Inr x \<and> getitem h a n = Inr x
                \<and> (\<not> class_supplied n \<longrightarrow> attr_read h a n = Inr (Field x)))
          \<and> (n \<notin> set property_names \<longrightarrow> (\<exists>r. attr_read h a n = Inr r))
          \<and> (\<exists>h'. delete h a [n] = (h', None) \<and> getattr h' a n = Inl AttributeError
                 \<and> getitem h' a n = Inl AttributeError
                 \<and> (\<not> class_supplied n \<longrightarrow> attr_read h' a n = Inl AttributeError)
                 \<and> delete h' a [n] = (h', Some KeyError)))
       \<and> (distinct ks \<and> set ks \<subseteq> fst ` set m \<longrightarrow> (\<exists>h'. delete h a ks = (h', None)))
       \<and> (\<exists>h'. setattr h a n v = Inr h' \<and> setitem h a n v = Inr h')"
proof -
  have plain: "attr_read h' a n = as_field (getattr h' a n)"
    if "inst_dict h' a d m'" "\<not> class_supplied n" for h' m'
    using attr_read_plain[OF that(1), of n] that(2) by (simp add: class_supplied_def)
  have absent: "getattr h a n = Inl AttributeError \<and> getitem h a n = Inl AttributeError
          \<and> delete h a (n # ks) = (h, Some KeyError)
          \<and> (\<not> class_supplied n \<longrightarrow> attr_read h a n = Inl AttributeError)"
    if "n \<notin> fst ` set m"
  proof -
    from that have "map_of m n = None" by (simp add: map_of_None_keys)
    then have g: "getattr h a n = Inl AttributeError" by (simp add: getattr_inst_dict[OF assms])
    then show ?thesis
      using plain[OF assms]
      by (auto simp: getitem_def del_step_absent[OF assms that] as_field_def)
  qed
  have present: "(\<exists>x. map_of m n = Some x \<and> getattr h a n = Inr x \<and> getitem h a n = Inr x
                \<and> (\<not> class_supplied n \<longrightarrow> attr_read h a n = Inr (Field x)))
          \<and> (n \<notin> set property_names \<longrightarrow> (\<exists>r. attr_read h a n = Inr r))
          \<and> (\<exists>h'. delete h a [n] = (h', None) \<and> getattr h' a n = Inl AttributeError
                 \<and> getitem h' a n = Inl AttributeError
                 \<and> (\<not> class_supplied n \<longrightarrow> attr_read h' a n = Inl AttributeError)
                 \<and> delete h' a [n] = (h', Some KeyError))"
    if "n \<in> fst ` set m"
  proof -
    let ?hd = "h[d := ODict (AList.delete n m)]"
    have idl: "inst_dict ?hd a d (AList.delete n m)" using inst_dict_store[OF assms] .
    from that obtain x where x: "map_of m n = Some x"
      using map_of_None_keys[of m n] by (cases "map_of m n") auto
    then have g: "getattr h a n = Inr x" by (simp add: getattr_inst_dict[OF assms])
    have r: "attr_read h a n = Inr (Field x)" if "\<not> class_supplied n"
      using plain[OF assms that] g by (simp add: as_field_def)
    have r': "\<exists>r. attr_read h a n = Inr r" if "n \<notin> set property_names"
      using that assms g
      by (auto simp: attr_read_def inst_dict_def property_names_def as_field_def)
    have gd: "getattr ?hd a n = Inl AttributeError"
      by (simp add: getattr_inst_dict[OF idl] delete_conv')
    have rd: "attr_read ?hd a n = Inl AttributeError" if "\<not> class_supplied n"
      using plain[OF idl that] gd by (simp add: as_field_def)
    have d1: "delete h a [n] = (?hd, None)" by (simp add: del_step_present[OF assms that])
    have d2: "delete ?hd a [n] = (?hd, Some KeyError)"
      by (simp add: del_step_absent[OF idl] delete_notin_dom)
    from x g r r' gd rd d1 d2 show ?thesis by (simp add: getitem_def)
  qed
  have dels: "\<exists>h'. delete h a ks = (h', None)" if "distinct ks" "set ks \<subseteq> fst ` set m"
    using that assms
  proof (induction ks arbitrary: h m)
    case Nil
    then show ?case by simp
  next
    case (Cons k ks)
    let ?h = "h[d := ODict (AList.delete k m)]"
    have i: "inst_dict ?h a d (AList.delete k m)" using inst_dict_store[OF Cons.prems(3)] .
    have "\<exists>h'. delete ?h a ks = (h', None)"
      using Cons.prems(1,2) by (intro Cons.IH[OF _ _ i]) (auto simp: keys_delete)
    then show ?case using Cons.prems by (simp add: del_step_present)
  qed
  have wr: "\<exists>h'. setattr h a n v = Inr h' \<and> setitem h a n v = Inr h'"
  proof (cases "n = ''_data''")
    case True
    then show ?thesis using assms by (simp add: setattr_def setitem_def inst_dict_def)
  next
    case False
    then show ?thesis using setattr_inst_dict[OF assms False] by (simp add: setitem_def)
  qed
  from absent present dels wr show ?thesis by blast
qed

theorem missing_field_errors_witness:
  "getitem (sample_heap sample_fields) 0 ''note'' = Inl AttributeError
   \<and> attr_read (sample_heap sample_fields) 0 ''note'' = Inl AttributeError
   \<and> delete (sample_heap sample_fields) 0 [''note''] = (sample_heap sample_fields, Some KeyError)
   \<and> (\<exists>x. getitem (sample_heap (sample_fields @ [(''note'', VInt 5)])) 0 ''note'' = Inr x
          \<and> attr_read (sample_heap (sample_fields @ [(''note'', VInt 5)])) 0 ''note''
              = Inr (Field x))
   \<and> (\<exists>h'. delete (sample_heap (sample_fields @ [(''note'', VInt 5)])) 0 [''note''] = (h', None)
          \<and> getitem h' 0 ''note'' = Inl AttributeError
          \<and> attr_read h' 0 ''note'' = Inl AttributeError
          \<and> delete h' 0 [''note''] = (h', Some KeyError))
   \<and> (\<exists>h'. delete (sample_heap sample_fields) 0 [''index'', ''id''] = (h', None))
   \<and> (\<exists>h'. setattr (sample_heap sample_fields) 0 ''note'' (VRef 0) = Inr h')"
proof -
  have n: "\<not> class_supplied ''note''" "''note'' \<notin> set property_names"
    "''note'' \<notin> fst ` set sample_fields"
    "''note'' \<in> fst ` set (sample_fields @ [(''note'', VInt 5)])"
    "distinct [''index'', ''id'']" "set [''index'', ''id''] \<subseteq> fst ` set sample_fields"
    by (simp_all add: class_supplied_def property_names_def method_names_def object_names_def
        sample_fields_def)
  from missing_field_errors[OF inst_dict_sample, of "''note''" sample_fields "[]" "VRef 0"]
    missing_field_errors[OF inst_dict_sample, of "''note''" "sample_fields @ [(''note'', VInt 5)]"
      "[]" VNone]
    missing_field_errors[OF inst_dict_sample, of "''note''" sample_fields "[''index'', ''id'']" VNone]
    n
  show ?thesis by auto
qed

section \<open>Deleting several keys\<close>

text \<open>
  C10. \<^verbatim>\<open>delete\<close> is not atomic: when the keys \<open>pre\<close> are stored and the next key is not
  (or is one of \<open>pre\<close>), KeyError is raised and the record is left without the keys
  \<open>pre\<close>, every other field as before.
\<close>

theorem delete_not_atomic:
  assumes "inst_dict h a d m" and "distinct pre" and "set pre \<subseteq> fst ` set m"
    and "k \<notin> fst ` set m \<or> k \<in> set pre"
  shows "\<exists>h'. delete h a (pre @ k # post) = (h', Some KeyError)
           \<and> inst_dict h' a d (filter (\<lambda>kv. fst kv \<notin> set pre) m)
           \<and> (\<forall>p \<in> set pre. getattr h a p \<noteq> Inl AttributeError \<and> getattr h' a p = Inl AttributeError)
           \<and> (\<forall>n. n \<notin> set pre \<longrightarrow> getattr h' a n = getattr h a n)"
proof -
  let ?m = "filter (\<lambda>kv. fst kv \<notin> set pre) m"
  let ?h = "h[d := ODict ?m]"
  have i: "inst_dict ?h a d ?m" using inst_dict_store[OF assms(1)] .
  have d: "delete h a (pre @ k # post) = (?h, Some KeyError)"
    using delete_partial[OF assms] .
  have p: "getattr h a p \<noteq> Inl AttributeError" if "p \<in> set pre" for p
  proof -
    from that assms(3) have "p \<in> fst ` set m" by auto
    then obtain x where "map_of m p = Some x"
      using map_of_None_keys[of m p] by (cases "map_of m p") auto
    then show ?thesis by (simp add: getattr_inst_dict[OF assms(1)])
  qed
  from i d p show ?thesis
    by (auto simp: getattr_inst_dict[OF i] getattr_inst_dict[OF assms(1)] map_of_filter_keys)
qed

theorem delete_not_atomic_witness:
  "delete (sample_heap sample_fields) 0 [''index'', ''id'', ''note'', ''query'']
     = (sample_heap (filter (\<lambda>kv. fst kv \<notin> {''index'', ''id''}) sample_fields), Some KeyError)
   \<and> getattr (sample_heap sample_fields) 0 ''index'' = Inr VNone
   \<and> getattr (sample_heap (filter (\<lambda>kv. fst kv \<notin> {''index'', ''id''}) sample_fields)) 0 ''index''
       = Inl AttributeError
   \<and> getattr (sample_heap (filter (\<lambda>kv. fst kv \<notin> {''index'', ''id''}) sample_fields)) 0 ''query''
       = Inr (VStr ''test'')"
proof -
  have a: "distinct [''index'', ''id'']" "set [''index'', ''id''] \<subseteq> fst ` set sample_fields"
    "''note'' \<notin> fst ` set sample_fields \<or> ''note'' \<in> set [''index'', ''id'']"
    by (simp_all add: sample_fields_def)
  have e: "delete (sample_heap sample_fields) 0 [''index'', ''id'', ''note'', ''query'']
     = (sample_heap (filter (\<lambda>kv. fst kv \<notin> {''index'', ''id''}) sample_fields), Some KeyError)"
    by (simp add: model_defs sample_heap_def sample_fields_def)
  from delete_not_atomic[OF inst_dict_sample a, of "[''query'']"] e
  show ?thesis
    by (simp add: getattr_inst_dict[OF inst_dict_sample] sample_fields_def)
qed
section \<open>Copying a record\<close>








end
